theory Spec2Isabelle
  imports Main
begin

section \<open>JavaScript values\<close>

text \<open>
  The rule \<^verbatim>\<open>no-defined-arbitrary-value\<close> works on three kinds of data: the resolved
  Tailwind configuration (a tree of JavaScript values), the syntax tree of the linted
  file, and strings. Strings are lists of characters; a character stands for one UTF-16
  code unit below 256, so \<open>length\<close> is the \<^verbatim>\<open>.length\<close> of the source string and
  the only line terminators that can occur are line feed and carriage return.

  Values: numbers are only ever compared (as keys of a \<^verbatim>\<open>Map\<close>), never computed
  with, and are modelled by integers. Arrays and functions carry a reference number:
  two distinct objects of the program have distinct references, so that equality of
  the values below is the SameValueZero comparison that \<^verbatim>\<open>Map\<close> uses on every value
  that becomes a key. A plain object is the list of its own enumerable properties in
  the order \<^verbatim>\<open>Object.keys\<close> lists them (to this code any other object that is
  not an array, a date or an instance of a class, is such an object too, with the
  properties \<^verbatim>\<open>Object.keys\<close> gives for it); an array is the list of its elements
  (no holes, no properties besides the indices). Values are finite trees: a
  configuration that contains itself is not modelled.
\<close>

datatype jsval =
    JUndefined
  | JNull
  | JBoolean bool
  | JNumber int
  | JString string
  | JFunction nat
  | JArray nat "jsval list"
  | JObject "(string \<times> jsval) list"

datatype error = TypeError

definition digit :: "nat \<Rightarrow> char" where
  "digit d = char_of (48 + d)"

fun decimal :: "nat \<Rightarrow> string" where
  "decimal n = (if n < 10 then [digit n] else decimal (n div 10) @ [digit (n mod 10)])"

declare decimal.simps [simp del]

definition indexKeys :: "nat \<Rightarrow> string list" where
  "indexKeys n = map decimal [0..<n]"

text \<open>
  \<open>ownEntries obj\<close> is \<^verbatim>\<open>Object.keys(obj)\<close> together with \<^verbatim>\<open>obj[key]\<close> for
  each key: it throws on \<^verbatim>\<open>undefined\<close> and \<^verbatim>\<open>null\<close>, lists the indices of an array
  or of a string, and is empty for the other primitives and for functions.
\<close>

fun ownEntries :: "jsval \<Rightarrow> error + (string \<times> jsval) list" where
  "ownEntries JUndefined = Inl TypeError"
| "ownEntries JNull = Inl TypeError"
| "ownEntries (JObject kvs) = Inr kvs"
| "ownEntries (JArray r xs) = Inr (zip (indexKeys (length xs)) xs)"
| "ownEntries (JString s) = Inr (zip (indexKeys (length s)) (map (\<lambda>c. JString [c]) s))"
| "ownEntries (JBoolean b) = Inr []"
| "ownEntries (JNumber n) = Inr []"
| "ownEntries (JFunction r) = Inr []"

text \<open>
  The test \<^verbatim>\<open>typeof value === 'object' && value !== null && !Array.isArray(value)\<close>.
\<close>

fun isPlainObject :: "jsval \<Rightarrow> bool" where
  "isPlainObject (JObject kvs) = True"
| "isPlainObject _ = False"

text \<open>
  Property access \<^verbatim>\<open>v.k\<close>, used for \<^verbatim>\<open>mergedConfig.theme\<close> and \<^verbatim>\<open>.colors\<close>:
  it throws on \<^verbatim>\<open>undefined\<close> and \<^verbatim>\<open>null\<close>, and a property that is absent reads
  as \<^verbatim>\<open>undefined\<close> (no primitive, array or function has a property of either name).
\<close>

fun getProp :: "jsval \<Rightarrow> string \<Rightarrow> error + jsval" where
  "getProp JUndefined k = Inl TypeError"
| "getProp JNull k = Inl TypeError"
| "getProp (JObject kvs) k = Inr (case map_of kvs k of None \<Rightarrow> JUndefined | Some v \<Rightarrow> v)"
| "getProp _ k = Inr JUndefined"


section \<open>traverseObject\<close>

text \<open>
  \<^verbatim>\<open>traverseObject(obj, callback, path = [])\<close>. The callback has an effect only; it is
  a transformer of a state \<open>'s\<close>, which the traversal threads through.
  \<open>forEachKey\<close> is the body of \<^verbatim>\<open>Object.keys(obj).forEach(key => ...)\<close>.
  \<^verbatim>\<open>path.concat(key)\<close> builds a new array, so the path of the caller is unchanged.
\<close>

fun weight :: "jsval \<Rightarrow> nat" where
  "weight (JObject kvs) = sum_list (map (\<lambda>kv. weight (snd kv)) kvs) + length kvs + 3"
| "weight _ = 0"

definition entriesWeight :: "(string \<times> jsval) list \<Rightarrow> nat" where
  "entriesWeight kvs = sum_list (map (\<lambda>kv. weight (snd kv)) kvs) + length kvs"

function traverseObject ::
    "jsval \<Rightarrow> (jsval \<Rightarrow> string list \<Rightarrow> 's \<Rightarrow> 's) \<Rightarrow> string list \<Rightarrow> 's \<Rightarrow> error + 's"
  and forEachKey ::
    "(string \<times> jsval) list \<Rightarrow> (jsval \<Rightarrow> string list \<Rightarrow> 's \<Rightarrow> 's) \<Rightarrow> string list \<Rightarrow> 's \<Rightarrow> error + 's"
where
  "traverseObject obj callback path s =
     (case ownEntries obj of
        Inl e \<Rightarrow> Inl e
      | Inr kvs \<Rightarrow> forEachKey kvs callback path s)"
| "forEachKey [] callback path s = Inr s"
| "forEachKey ((key, value) # rest) callback path s =
     (let newPath = path @ [key] in
      case (if isPlainObject value
            then traverseObject value callback newPath s
            else Inr (callback value newPath s)) of
        Inl e \<Rightarrow> Inl e
      | Inr s' \<Rightarrow> forEachKey rest callback path s')"
  by pat_completeness auto

termination
  by (relation "measure (\<lambda>x. case x of
            Inl (obj, cb, p, s) \<Rightarrow>
              (case ownEntries obj of Inl e \<Rightarrow> 0 | Inr kvs \<Rightarrow> entriesWeight kvs + 3)
          | Inr (kvs, cb, p, s) \<Rightarrow> entriesWeight kvs + 2)")
     (auto simp: entriesWeight_def split: sum.splits elim!: isPlainObject.elims)


section \<open>The theme index\<close>

text \<open>
  The \<^verbatim>\<open>Map\<close> built in \<^verbatim>\<open>create\<close>: its entries in insertion order. Every array
  stored in it is created with one path and only ever grows by \<^verbatim>\<open>push\<close>, so an entry
  is modelled as its first path and the list of the later ones.
\<close>

type_synonym themeMap = "(jsval \<times> string \<times> string list) list"

fun join :: "string list \<Rightarrow> string \<Rightarrow> string" where
  "join [] sep = []"
| "join [x] sep = x"
| "join (x # y # ys) sep = x @ sep @ join (y # ys) sep"

definition map_has :: "themeMap \<Rightarrow> jsval \<Rightarrow> bool" where
  "map_has m k = (map_of m k \<noteq> None)"

definition map_get :: "themeMap \<Rightarrow> jsval \<Rightarrow> (string \<times> string list) option" where
  "map_get m k = map_of m k"

definition pushPath :: "jsval \<Rightarrow> string \<Rightarrow> themeMap \<Rightarrow> themeMap" where
  "pushPath k p m =
     map (\<lambda>(k', first, others). if k' = k then (k', first, others @ [p]) else (k', first, others)) m"

text \<open>The callback given to \<^verbatim>\<open>traverseObject\<close>, as a transformer of the map.\<close>

definition collect :: "jsval \<Rightarrow> string list \<Rightarrow> themeMap \<Rightarrow> themeMap" where
  "collect value path m =
     (if map_has m value then pushPath value (join path ''-'') m
      else m @ [(value, join path ''-'', [])])"

text \<open>
  \<^verbatim>\<open>create\<close> allocates its map with \<^verbatim>\<open>new Map()\<close> and the callback closes over that
  reference. The store holds the maps allocated so far; a reference is a position in it.
  \<open>create\<close> is lines 70 to 81 of the rule; its argument is the value that
  \<^verbatim>\<open>customConfig.resolve\<close> returned.
\<close>

type_synonym store = "themeMap list"

definition collectAt :: "nat \<Rightarrow> jsval \<Rightarrow> string list \<Rightarrow> store \<Rightarrow> store" where
  "collectAt r value path st = st[r := collect value path (st ! r)]"

definition create :: "jsval \<Rightarrow> store \<Rightarrow> error + (nat \<times> store)" where
  "create mergedConfig st =
     (let r = length st; st1 = st @ [[]] in
      case getProp mergedConfig ''theme'' of
        Inl e \<Rightarrow> Inl e
      | Inr theme \<Rightarrow>
          (case getProp theme ''colors'' of
             Inl e \<Rightarrow> Inl e
           | Inr colors \<Rightarrow>
               (case traverseObject colors (collectAt r) [] st1 of
                  Inl e \<Rightarrow> Inl e
                | Inr st2 \<Rightarrow> Inr (r, st2))))"

text \<open>The index of a session that starts from an empty store.\<close>

definition buildIndex :: "jsval \<Rightarrow> error + themeMap" where
  "buildIndex mergedConfig =
     (case create mergedConfig [] of Inl e \<Rightarrow> Inl e | Inr (r, st) \<Rightarrow> Inr (st ! r))"

text \<open>
  The leaves of a nested mapping as the specification describes the traversal: depth
  first, keys in enumeration order; a value that is a plain nested mapping is descended
  into with the path extended by its key, every other value is a leaf at that path.
\<close>

fun themeLeaves :: "string list \<Rightarrow> (string \<times> jsval) list \<Rightarrow> (jsval \<times> string list) list" where
  "themeLeaves path [] = []"
| "themeLeaves path ((key, JObject kvs) # rest) =
     themeLeaves (path @ [key]) kvs @ themeLeaves path rest"
| "themeLeaves path ((key, value) # rest) = (value, path @ [key]) # themeLeaves path rest"

text \<open>The paths an index holds for a value, in the order of the stored array.\<close>

definition pathsOf :: "themeMap \<Rightarrow> jsval \<Rightarrow> string list" where
  "pathsOf m v = (case map_get m v of None \<Rightarrow> [] | Some (first, others) \<Rightarrow> first # others)"

text \<open>An index in which every entry keeps its first path only.\<close>

definition firstOnly :: "themeMap \<Rightarrow> themeMap" where
  "firstOnly m = map (\<lambda>(k, first, others). (k, first, [])) m"


section \<open>The bracket pattern and String.prototype.replace\<close>

definition isLineTerminator :: "char \<Rightarrow> bool" where
  "isLineTerminator c = (c = CHR 0x0A \<or> c = CHR 0x0D)"

text \<open>
  \<open>lastClose cs\<close>, for the text after an opening bracket, is how many characters the
  greedy \<^verbatim>\<open>.*\<close> keeps before the closing bracket: \<^verbatim>\<open>.\<close> stops at a line terminator,
  and backtracking gives the last closing bracket before that.
\<close>

fun lastClose :: "string \<Rightarrow> nat option" where
  "lastClose [] = None"
| "lastClose (c # cs) =
     (if isLineTerminator c then None
      else case lastClose cs of
             Some k \<Rightarrow> Some (Suc k)
           | None \<Rightarrow> if c = CHR '']'' then Some 0 else None)"

text \<open>
  \<^verbatim>\<open>name.match(/\[(.*)\]/i)\<close>: the leftmost position where the pattern matches, the
  matched text and the captured group. The flag \<^verbatim>\<open>i\<close> has no effect on a pattern
  without letters.
\<close>

fun matchArbitrary :: "string \<Rightarrow> (nat \<times> string \<times> string) option" where
  "matchArbitrary [] = None"
| "matchArbitrary (c # cs) =
     (case (if c = CHR ''['' then lastClose cs else None) of
        Some k \<Rightarrow> Some (0, c # take (Suc k) cs, take k cs)
      | None \<Rightarrow> map_option (\<lambda>(i, matched, key). (Suc i, matched, key)) (matchArbitrary cs))"

fun indexOf :: "string \<Rightarrow> string \<Rightarrow> nat option" where
  "indexOf [] pat = (if pat = [] then Some 0 else None)"
| "indexOf (c # cs) pat =
     (if take (length pat) (c # cs) = pat then Some 0
      else map_option Suc (indexOf cs pat))"

text \<open>
  The replacement text of \<^verbatim>\<open>replace\<close> with a string pattern is a template:
  \<^verbatim>\<open>$$\<close> stands for a dollar sign, \<^verbatim>\<open>$&\<close> for the matched text, a dollar sign
  followed by a backquote for the text before the match and followed by an apostrophe
  for the text after it. There are no capture groups, so any other dollar sign is kept.
\<close>

fun getSubstitution :: "string \<Rightarrow> string \<Rightarrow> string \<Rightarrow> string \<Rightarrow> string" where
  "getSubstitution matched front back [] = []"
| "getSubstitution matched front back [c] = [c]"
| "getSubstitution matched front back (c # d # rest) =
     (if c = CHR ''$'' then
        (if d = CHR ''$'' then CHR ''$'' # getSubstitution matched front back rest
         else if d = CHR ''&'' then matched @ getSubstitution matched front back rest
         else if d = CHR 0x60 then front @ getSubstitution matched front back rest
         else if d = CHR 0x27 then back @ getSubstitution matched front back rest
         else CHR ''$'' # getSubstitution matched front back (d # rest))
      else c # getSubstitution matched front back (d # rest))"

text \<open>\<^verbatim>\<open>s.replace(pat, replacement)\<close> for a string \<open>pat\<close>: the first occurrence only.\<close>

definition replace :: "string \<Rightarrow> string \<Rightarrow> string \<Rightarrow> string" where
  "replace s pat replacement =
     (case indexOf s pat of
        None \<Rightarrow> s
      | Some i \<Rightarrow>
          (let front = take i s; back = drop (i + length pat) s
           in front @ getSubstitution pat front back replacement @ back))"

definition endsWith :: "string \<Rightarrow> string \<Rightarrow> bool" where
  "endsWith s suffix =
     (length suffix \<le> length s \<and> drop (length s - length suffix) s = suffix)"


section \<open>Class names of a value\<close>

text \<open>
  Modelled from the spec: \<^verbatim>\<open>astUtil.extractClassnamesFromValue\<close> is not among the
  sources. The specification describes its result as the whitespace-delimited class
  names of the string, each with its start offset relative to the string; the two
  parallel arrays \<^verbatim>\<open>classNames\<close> and \<^verbatim>\<open>classNamesIndex\<close> are one list of pairs
  here. A value that is not a string has no class names.
\<close>

definition isSpace :: "char \<Rightarrow> bool" where
  "isSpace c = (c \<in> set [CHR 0x09, CHR 0x0A, CHR 0x0B, CHR 0x0C, CHR 0x0D, CHR 0x20, CHR 0xA0])"

fun scanTokens :: "nat \<Rightarrow> (string \<times> nat) option \<Rightarrow> string \<Rightarrow> (string \<times> nat) list" where
  "scanTokens i cur [] = (case cur of None \<Rightarrow> [] | Some t \<Rightarrow> [t])"
| "scanTokens i cur (c # cs) =
     (if isSpace c then
        (case cur of None \<Rightarrow> scanTokens (Suc i) None cs
                   | Some t \<Rightarrow> t # scanTokens (Suc i) None cs)
      else
        (case cur of None \<Rightarrow> scanTokens (Suc i) (Some ([c], i)) cs
                   | Some (w, j) \<Rightarrow> scanTokens (Suc i) (Some (w @ [c], j)) cs))"

fun extractClassnamesFromValue :: "jsval \<Rightarrow> (string \<times> nat) list" where
  "extractClassnamesFromValue (JString s) = scanTokens 0 None s"
| "extractClassnamesFromValue _ = []"


section \<open>Matching a class name against the index\<close>

record violation =
  arbitraryValue :: string
  definedToken :: "string list"
  fixStart :: int
  fixEnd :: int
  fixed :: string

text \<open>
  What the closures of \<^verbatim>\<open>create\<close> share: the index, and the parser of class names.
  \<^verbatim>\<open>groupUtil.parseClassname\<close> is not among the sources and only the \<^verbatim>\<open>name\<close> of its
  result is read, so it is a parameter: the name it gives for a class name and its
  position in the list.
\<close>

record ruleEnv =
  themeIndex :: themeMap
  parseClassname :: "string \<Rightarrow> nat \<Rightarrow> string"

text \<open>
  \<^verbatim>\<open>start\<close> is \<^verbatim>\<open>null\<close> where no case of the switch assigns it; in an addition
  \<^verbatim>\<open>null\<close> counts as zero.
\<close>

definition toNumber :: "int option \<Rightarrow> int" where
  "toNumber n = (case n of None \<Rightarrow> 0 | Some k \<Rightarrow> k)"

text \<open>The body of \<^verbatim>\<open>classNames.forEach((cls, idx) => ...)\<close> for one class name.\<close>

definition checkClass :: "ruleEnv \<Rightarrow> int option \<Rightarrow> nat \<times> string \<times> nat \<Rightarrow> violation option" where
  "checkClass ctx start t =
     (case t of (idx, cls, off) \<Rightarrow>
        (let name = parseClassname ctx cls idx in
         case matchArbitrary name of
           None \<Rightarrow> None
         | Some (i, matched, key) \<Rightarrow>
             (case map_get (themeIndex ctx) (JString key) of
                None \<Rightarrow> None
              | Some (first, others) \<Rightarrow>
                  Some \<lparr> arbitraryValue = key,
                         definedToken = first # others,
                         fixStart = toNumber start + int off,
                         fixEnd = toNumber start + int off + int (length name),
                         fixed = replace name matched
                                   (if endsWith first ''-DEFAULT''
                                    then take (length first - 8) first else first) \<rparr>)))"

definition forbidden :: "ruleEnv \<Rightarrow> int option \<Rightarrow> (string \<times> nat) list \<Rightarrow> violation list" where
  "forbidden ctx start classNames = List.map_filter (checkClass ctx start) (enumerate 0 classNames)"

text \<open>
  Lines 161 to 196: the class names of the value are checked in order and every
  violation is reported. The result is the list of the reports made.
\<close>

definition reportClassnames :: "ruleEnv \<Rightarrow> jsval \<Rightarrow> int option \<Rightarrow> violation list" where
  "reportClassnames ctx originalClassNamesValue start =
     forbidden ctx start (extractClassnamesFromValue originalClassNamesValue)"


section \<open>The walker\<close>

text \<open>
  The expressions the walker is given. \<open>Literal v r0 r1\<close> and \<open>TemplateElement raw r0 r1\<close>
  carry the value and the range of the node; an array may have holes; \<open>OtherNode ty\<close>
  is a node of any type that the switch does not name. The properties of an object
  expression are \<open>Property\<close> nodes or spread elements, and a spread element has neither
  \<^verbatim>\<open>key\<close> nor \<^verbatim>\<open>value\<close>.
\<close>

datatype expr =
    Identifier string
  | TemplateLiteral "expr list" "expr list"
  | ConditionalExpression expr expr expr
  | LogicalExpression expr expr
  | ArrayExpression "expr option list"
  | ObjectExpression "expr list"
  | Property expr expr
  | Literal jsval int int
  | TemplateElement string int int
  | OtherNode string

text \<open>
  Modelled from the spec: \<^verbatim>\<open>astUtil.extractValueFromNode\<close> and
  \<^verbatim>\<open>astUtil.extractRangeFromNode\<close> are not among the sources. The specification says
  they give the literal value and the raw source range of the node itself; the root
  node carries both, next to the fields the walker reads from it.
\<close>

record rootNode =
  nodeType :: string
  calleeName :: "string option"
  keyType :: "string option"
  nodeValue :: jsval
  nodeRange :: "int \<times> int"

fun propKey :: "expr \<Rightarrow> expr option" where
  "propKey (Property k v) = Some k"
| "propKey _ = None"

fun propValue :: "expr \<Rightarrow> expr option" where
  "propValue (Property k v) = Some v"
| "propValue _ = None"

text \<open>
  \<^verbatim>\<open>parseForArbitraryValues(node, arg = null)\<close>. An argument that is \<^verbatim>\<open>undefined\<close>
  takes the default, so \<open>None\<close> stands for both. The variable \<^verbatim>\<open>end\<close> is assigned
  and never read. The result is the list of the reports made, in the order of the calls
  of \<^verbatim>\<open>context.report\<close>. The function has no \<^verbatim>\<open>throw\<close> of its own and reads only
  fields that a node of the matched type has; the helpers it calls are total here.
\<close>

function parseForArbitraryValues :: "ruleEnv \<Rightarrow> rootNode \<Rightarrow> expr option \<Rightarrow> violation list" where
  "parseForArbitraryValues ctx node None =
     (let originalClassNamesValue = nodeValue node;
          range = nodeRange node;
          start = (if nodeType node = ''TextAttribute'' then fst range else fst range + 1)
      in reportClassnames ctx originalClassNamesValue (Some start))"
| "parseForArbitraryValues ctx node (Some (Identifier x)) = []"
| "parseForArbitraryValues ctx node (Some (TemplateLiteral expressions quasis)) =
     concat (map (\<lambda>exp. parseForArbitraryValues ctx node (Some exp)) expressions) @
     concat (map (\<lambda>quasis. parseForArbitraryValues ctx node (Some quasis)) quasis)"
| "parseForArbitraryValues ctx node (Some (ConditionalExpression test consequent alternate)) =
     parseForArbitraryValues ctx node (Some consequent) @
     parseForArbitraryValues ctx node (Some alternate)"
| "parseForArbitraryValues ctx node (Some (LogicalExpression left right)) =
     parseForArbitraryValues ctx node (Some right)"
| "parseForArbitraryValues ctx node (Some (ArrayExpression elements)) =
     concat (map (\<lambda>el. parseForArbitraryValues ctx node el) elements)"
| "parseForArbitraryValues ctx node (Some (ObjectExpression properties)) =
     (let isUsedByClassNamesPlugin = (calleeName node = Some ''classnames'');
          isVue = (keyType node = Some ''VDirectiveKey'')
      in concat (map (\<lambda>prop. parseForArbitraryValues ctx node
                         (if isUsedByClassNamesPlugin \<or> isVue then propKey prop else propValue prop))
                   properties))"
| "parseForArbitraryValues ctx node (Some (Property key v)) =
     parseForArbitraryValues ctx node (Some key)"
| "parseForArbitraryValues ctx node (Some (Literal v r0 r1)) =
     reportClassnames ctx v (Some (r0 + 1))"
| "parseForArbitraryValues ctx node (Some (TemplateElement raw r0 r1)) =
     (if raw = [] then [] else reportClassnames ctx (JString raw) (Some r0))"
| "parseForArbitraryValues ctx node (Some (OtherNode ty)) =
     reportClassnames ctx JNull None"
  by pat_completeness auto

termination
proof (relation "measure (\<lambda>(ctx, node, arg). size_option size arg)")
  have member: "f x \<le> size_list f xs" if "x \<in> set xs" for f :: "'a \<Rightarrow> nat" and x xs
    using that by (induction xs) auto
  have picked: "size_option size (if b then propKey p else propValue p) \<le> Suc (size p)"
    for b and p :: expr
    by (cases p) simp_all
  fix ctx :: ruleEnv and node :: rootNode and properties :: "expr list" and b c p
  assume "p \<in> set properties"
  then have "size p \<le> size_list size properties"
    by (rule member)
  with picked [of "b \<or> c" p]
  show "((ctx, node, if b \<or> c then propKey p else propValue p),
          (ctx, node, Some (ObjectExpression properties)))
        \<in> measure (\<lambda>(ctx, node, arg). size_option size arg)"
    by simp
qed (auto simp: less_Suc_eq_le le_SucI trans_le_add1 trans_le_add2 size_list_estimation')


section \<open>splitWithIndex\<close>

text \<open>
  A regular expression is what the split needs of it: the \<^verbatim>\<open>sticky\<close> flag, and for a
  position of the input, given the text before it and the text from it on, whether the
  pattern matches there, how many characters the match takes and the captured groups
  (\<open>None\<close> for a group that did not take part). The matched text is a prefix of the
  text from the position on.
\<close>

record regexp =
  sticky :: bool
  matchAt :: "string \<Rightarrow> string \<Rightarrow> (nat \<times> string option list) option"

type_synonym rmatch = "nat \<times> string \<times> string option list"

definition execAt :: "regexp \<Rightarrow> string \<Rightarrow> nat \<Rightarrow> rmatch option" where
  "execAt r str i =
     (case matchAt r (take i str) (drop i str) of
        None \<Rightarrow> None
      | Some (n, caps) \<Rightarrow> Some (i, take n (drop i str), caps))"

text \<open>One \<^verbatim>\<open>exec\<close> of a global expression from \<^verbatim>\<open>lastIndex\<close>.\<close>

definition regexExec :: "regexp \<Rightarrow> string \<Rightarrow> nat \<Rightarrow> rmatch option" where
  "regexExec r str lastIndex =
     (if length str < lastIndex then None
      else if sticky r then execAt r str lastIndex
      else (case List.find (\<lambda>i. execAt r str i \<noteq> None) [lastIndex..<Suc (length str)] of
              None \<Rightarrow> None
            | Some i \<Rightarrow> execAt r str i))"

text \<open>
  \<^verbatim>\<open>[...str.matchAll(regex)]\<close> from a given \<^verbatim>\<open>lastIndex\<close>: after an empty match
  the next search starts one position later.
\<close>

function matchAll :: "regexp \<Rightarrow> string \<Rightarrow> nat \<Rightarrow> rmatch list" where
  "matchAll r str lastIndex =
     (case regexExec r str lastIndex of
        None \<Rightarrow> []
      | Some (i, text, caps) \<Rightarrow>
          (i, text, caps) # matchAll r str (if text = [] then Suc i else i + length text))"
  by pat_completeness auto

termination
proof (relation "measure (\<lambda>(r, str, lastIndex). Suc (length str) - lastIndex)", goal_cases)
  case 1
  show ?case by simp
next
  case (2 r str lastIndex m i rest mt caps)
  have found: "x \<in> set xs" if "List.find P xs = Some x" for P and x :: nat and xs
    using that by (induction xs) (auto split: if_splits)
  from 2 have "regexExec r str lastIndex = Some (i, mt, caps)"
    by simp
  then have "lastIndex \<le> i \<and> i \<le> length str"
    by (auto simp: regexExec_def execAt_def split: if_splits option.splits dest!: found)
  then have "lastIndex < (if mt = [] then Suc i else i + length mt) \<and> lastIndex \<le> length str"
    by (cases mt) auto
  then show ?case
    by (simp add: diff_less_mono2)
qed

declare matchAll.simps [simp del]

text \<open>\<^verbatim>\<open>str.substring(a, b)\<close>: both ends are clamped to the string and swapped if needed.\<close>

definition substring :: "string \<Rightarrow> nat \<Rightarrow> nat \<Rightarrow> string" where
  "substring s a b =
     (let a' = min a (length s); b' = min b (length s)
      in take (max a' b' - min a' b') (drop (min a' b') s))"

type_synonym part = "string option \<times> nat"

text \<open>The loop \<^verbatim>\<open>for (match of matches)\<close>; it returns the result and \<^verbatim>\<open>lastIndex\<close>.\<close>

fun splitLoop :: "string \<Rightarrow> rmatch list \<Rightarrow> nat \<Rightarrow> part list \<Rightarrow> part list \<times> nat" where
  "splitLoop str [] lastIndex result = (result, lastIndex)"
| "splitLoop str ((i, text, caps) # ms) lastIndex result =
     (let result1 = (if i \<noteq> lastIndex
                     then result @ [(Some (substring str lastIndex i), lastIndex)]
                     else result);
          result2 = result1 @ map (\<lambda>c. (c, i)) caps
      in splitLoop str ms (i + length text) result2)"

definition splitWithIndex :: "string \<Rightarrow> regexp \<Rightarrow> part list" where
  "splitWithIndex str separator =
     (case matchAll separator str 0 of
        [] \<Rightarrow> [(Some str, 0)]
      | m # ms \<Rightarrow>
          (let result0 = (if fst m = 0 then [(Some [], 0)] else []);
               (result, lastIndex) = splitLoop str (m # ms) 0 result0
           in result @ [(Some (drop lastIndex str), lastIndex)]))"

text \<open>A separator without capture groups: every match has an empty list of groups.\<close>

definition plainRegexp :: "bool \<Rightarrow> (string \<Rightarrow> string \<Rightarrow> nat option) \<Rightarrow> regexp" where
  "plainRegexp st m =
     \<lparr> sticky = st, matchAt = (\<lambda>front rest. map_option (\<lambda>n. (n, [])) (m front rest)) \<rparr>"

text \<open>The first match of the separator is an empty match at index 0.\<close>

definition emptyMatchAtStart :: "regexp \<Rightarrow> string \<Rightarrow> bool" where
  "emptyMatchAtStart r str =
     (case matchAll r str 0 of [] \<Rightarrow> False | (i, text, caps) # ms \<Rightarrow> i = 0 \<and> text = [])"

text \<open>The separator matches at no position of the string.\<close>

definition matchesNowhere :: "regexp \<Rightarrow> string \<Rightarrow> bool" where
  "matchesNowhere r str = list_all (\<lambda>i. execAt r str i = None) [0..<Suc (length str)]"

text \<open>
  Matches without groups that lie in the string one after the other, none starting
  before position \<open>k\<close>.
\<close>

fun ordered :: "string \<Rightarrow> nat \<Rightarrow> rmatch list \<Rightarrow> bool" where
  "ordered str k [] = True"
| "ordered str k ((i, text, caps) # ms) =
     (k \<le> i \<and> i + length text \<le> length str \<and> caps = [] \<and> ordered str (i + length text) ms)"

text \<open>A part whose value is the text of the string at its index.\<close>

definition placed :: "string \<Rightarrow> part \<Rightarrow> bool" where
  "placed str p =
     (case p of (v, i) \<Rightarrow>
        (case v of None \<Rightarrow> False | Some s \<Rightarrow> substring str i (i + length s) = s))"


section \<open>Applying fixes\<close>

text \<open>
  Modelled from the spec: fixes are applied by the host framework, which is not part
  of the repository. The specification gives the contract: each fix is one replacement
  of the text in the range from \<^verbatim>\<open>start\<close> up to \<^verbatim>\<open>end\<close>, and the fixes of one pass
  do not overlap. They are applied from the last to the first, so that the offsets of
  the earlier ones stay valid.
\<close>

definition replaceTextRange :: "string \<Rightarrow> int \<Rightarrow> int \<Rightarrow> string \<Rightarrow> string" where
  "replaceTextRange src s e replacement = take (nat s) src @ replacement @ drop (nat e) src"

definition applyFixes :: "string \<Rightarrow> violation list \<Rightarrow> string" where
  "applyFixes src vs =
     foldr (\<lambda>v acc. replaceTextRange acc (fixStart v) (fixEnd v) (fixed v)) vs src"

definition sourceText :: "string \<Rightarrow> int \<Rightarrow> int \<Rightarrow> string" where
  "sourceText src s e = take (nat (e - s)) (drop (nat s) src)"


section \<open>Configurations, nodes and separators of the examples\<close>

text \<open>A resolved configuration that has the given value as \<^verbatim>\<open>theme.colors\<close>.\<close>

definition themeConfig :: "jsval \<Rightarrow> jsval" where
  "themeConfig colors = JObject [(''theme'', JObject [(''colors'', colors)])]"

text \<open>The configuration of the rule's test, and the index expected for it.\<close>

definition testConfig :: jsval where
  "testConfig = JObject [(''theme'', JObject [(''colors'', JObject
      [(''gray'', JObject [(''DEFAULT'', JString ''#332233''),
                          (''layout'', JString ''#f0f2f5''),
                          (''flow'', JString ''#f0f2f5'')]),
       (''flow'', JString ''#123456'')])]),
     (''plugins'', JArray 0 [])]"

definition testIndex :: themeMap where
  "testIndex = [(JString ''#332233'', ''gray-DEFAULT'', []),
      (JString ''#f0f2f5'', ''gray-layout'', [''gray-flow'']),
      (JString ''#123456'', ''flow'', [])]"

text \<open>
  Modelled from the spec: \<^verbatim>\<open>groupUtil.parseClassname\<close> is not among the sources.
  The specification describes the \<^verbatim>\<open>name\<close> of a parsed class name as the part
  that can hold a bracketed value, after any variant or prefix is stripped; for a class
  name without variant or prefix that is the class name itself, letter case included.
\<close>

definition sameName :: "string \<Rightarrow> nat \<Rightarrow> string" where
  "sameName cls idx = cls"

definition testEnv :: ruleEnv where
  "testEnv = \<lparr> themeIndex = testIndex, parseClassname = sameName \<rparr>"

text \<open>
  The first invalid case of the test: the source text, and its \<^verbatim>\<open>class\<close> attribute,
  whose value literal (quotes included) is at offsets 11 to 73.
\<close>

definition testSource :: string where
  "testSource = ''<div class='' @ [CHR 0x22] @
     ''flex bg-[#f0f2f5] text-[#123456] text-[#332233] bg-[#F0F2F5]'' @ [CHR 0x22] @
     ''>Arbitrary width!</div>''"

definition testNode :: rootNode where
  "testNode = \<lparr> nodeType = ''JSXAttribute'', calleeName = None, keyType = None,
     nodeValue = JString ''flex bg-[#f0f2f5] text-[#123456] text-[#332233] bg-[#F0F2F5]'',
     nodeRange = (11, 73) \<rparr>"

text \<open>An attribute as the source text itself; its value literal is at offsets 6 to 40.\<close>

definition attrSource :: string where
  "attrSource = ''class='' @ [CHR 0x22] @ ''flex bg-[#f0f2f5] text-[#123456]'' @ [CHR 0x22]"

definition attrNode :: rootNode where
  "attrNode = \<lparr> nodeType = ''JSXAttribute'', calleeName = None, keyType = None,
     nodeValue = JString ''flex bg-[#f0f2f5] text-[#123456]'',
     nodeRange = (6, 40) \<rparr>"

text \<open>A theme with a colour whose key holds two dollar signs.\<close>

definition dollarConfig :: jsval where
  "dollarConfig = themeConfig (JObject [(''a$$b'', JString ''#123456'')])"

definition dollarEnv :: ruleEnv where
  "dollarEnv = \<lparr> themeIndex = [(JString ''#123456'', ''a$$b'', [])], parseClassname = sameName \<rparr>"

text \<open>An index of two lengths and a call of an allow-listed function, for the walker.\<close>

definition pxEnv :: ruleEnv where
  "pxEnv = \<lparr> themeIndex = [(JString ''1px'', ''one'', []), (JString ''2px'', ''two'', [])],
             parseClassname = sameName \<rparr>"

definition callNode :: rootNode where
  "callNode = \<lparr> nodeType = ''CallExpression'', calleeName = Some ''ctl'', keyType = None,
     nodeValue = JUndefined, nodeRange = (0, 40) \<rparr>"

text \<open>
  Two separators without groups: a run of whitespace (\<^verbatim>\<open>/\s+/\<close>), and the empty
  pattern, which matches the empty string at every position.
\<close>

definition whitespaceRun :: "string \<Rightarrow> string \<Rightarrow> nat option" where
  "whitespaceRun front rest =
     (case takeWhile isSpace rest of [] \<Rightarrow> None | w \<Rightarrow> Some (length w))"

definition emptyPattern :: "string \<Rightarrow> string \<Rightarrow> nat option" where
  "emptyPattern front rest = Some 0"

text \<open>
  A resolved configuration with the keys a resolved configuration has besides the
  colours: content, other theme sections, plugins. Its \<^verbatim>\<open>theme.colors\<close> is the
  given value.
\<close>

definition fullConfig :: "jsval \<Rightarrow> jsval" where
  "fullConfig colors = JObject
     [(''content'', JArray 1 [JString ''./src/**/*.js'']),
      (''theme'', JObject
         [(''screens'', JObject [(''sm'', JString ''640px''), (''md'', JString ''768px'')]),
          (''colors'', colors),
          (''spacing'', JObject [(''0'', JString ''0px''), (''1'', JString ''0.25rem'')])]),
      (''plugins'', JArray 0 [])]"

definition fullTheme :: "jsval \<Rightarrow> jsval" where
  "fullTheme colors = JObject
     [(''screens'', JObject [(''sm'', JString ''640px''), (''md'', JString ''768px'')]),
      (''colors'', colors),
      (''spacing'', JObject [(''0'', JString ''0px''), (''1'', JString ''0.25rem'')])]"


section \<open>Facts about the traversal and the index\<close>

text \<open>The traversal calls the callback on the leaves, in their order.\<close>

lemma traverse_leaves:
  "traverseObject obj cb path s =
     (case ownEntries obj of
        Inl e \<Rightarrow> Inl e
      | Inr kvs \<Rightarrow> Inr (fold (\<lambda>(v, p). cb v p) (themeLeaves path kvs) s))"
  "forEachKey kvs cb path s = Inr (fold (\<lambda>(v, p). cb v p) (themeLeaves path kvs) s)"
proof (induction obj cb path s and kvs cb path s rule: traverseObject_forEachKey.induct)
  case (1 obj callback path s)
  then show ?case
    by (auto split: sum.splits)
next
  case (2 callback path s)
  show ?case by simp
next
  case (3 key v rest callback path s)
  show ?case
  proof (cases v)
    case (JObject kvs)
    with 3 show ?thesis
      by (simp split: sum.splits)
  qed (use 3 in simp_all)
qed

lemma map_of_pushPath:
  "map_of (pushPath k p m) k' =
     (if k' = k then map_option (\<lambda>(first, others). (first, others @ [p])) (map_of m k')
      else map_of m k')"
  by (induction m) (auto simp: pushPath_def)

lemma pathsOf_collect:
  "pathsOf (collect v p m) v' = pathsOf m v' @ (if v' = v then [join p ''-''] else [])"
  by (auto simp: pathsOf_def collect_def map_get_def map_has_def map_of_pushPath map_add_def
           split: option.splits)

lemma pathsOf_fold:
  "pathsOf (fold (\<lambda>(v, p). collect v p) leaves m) v' =
     pathsOf m v' @ map (\<lambda>(v, p). join p ''-'') (filter (\<lambda>(v, p). v = v') leaves)"
  by (induction leaves arbitrary: m) (auto simp: pathsOf_collect)

text \<open>A callback that writes to one map of the store leaves the others as they are.\<close>

lemma fold_collectAt:
  "r < length st \<Longrightarrow>
     fold (\<lambda>(v, p). collectAt r v p) leaves st =
     st[r := fold (\<lambda>(v, p). collect v p) leaves (st ! r)]"
  by (induction leaves arbitrary: st) (auto simp: collectAt_def)

lemma create_eq:
  "create mergedConfig st =
     (case getProp mergedConfig ''theme'' of
        Inl e \<Rightarrow> Inl e
      | Inr theme \<Rightarrow>
          (case getProp theme ''colors'' of
             Inl e \<Rightarrow> Inl e
           | Inr colors \<Rightarrow>
               (case ownEntries colors of
                  Inl e \<Rightarrow> Inl e
                | Inr kvs \<Rightarrow>
                    Inr (length st, st @ [fold (\<lambda>(v, p). collect v p) (themeLeaves [] kvs) []]))))"
  by (simp add: create_def Let_def traverse_leaves fold_collectAt split: sum.splits)

lemma buildIndex_eq:
  "buildIndex mergedConfig =
     (case getProp mergedConfig ''theme'' of
        Inl e \<Rightarrow> Inl e
      | Inr theme \<Rightarrow>
          (case getProp theme ''colors'' of
             Inl e \<Rightarrow> Inl e
           | Inr colors \<Rightarrow> traverseObject colors collect [] []))"
  by (simp add: buildIndex_def create_eq traverse_leaves split: sum.splits)


section \<open>Facts about the matcher\<close>

lemma lastClose_Some:
  "lastClose cs = Some k \<Longrightarrow>
     k < length cs \<and> cs ! k = CHR '']'' \<and> (\<forall>c \<in> set (take (Suc k) cs). \<not> isLineTerminator c)"
proof (induction cs arbitrary: k)
  case Nil
  then show ?case by simp
next
  case (Cons c cs)
  show ?case
  proof (cases "lastClose cs")
    case None
    with Cons.prems show ?thesis
      by (auto split: if_splits)
  next
    case (Some j)
    with Cons.prems have k: "k = Suc j" and c: "\<not> isLineTerminator c"
      by (auto split: if_splits)
    from Cons.IH [OF Some] k c show ?thesis
      by auto
  qed
qed

lemma lastClose_take: "lastClose cs = Some k \<Longrightarrow> take (Suc k) cs = take k cs @ '']''"
  by (drule lastClose_Some) (simp add: take_Suc_conv_app_nth)

lemma close_not_terminator: "\<not> isLineTerminator CHR '']''"
  by (simp add: isLineTerminator_def)

lemma lastClose_found:
  "\<forall>c \<in> set key. \<not> isLineTerminator c \<Longrightarrow> lastClose (key @ CHR '']'' # rest) \<noteq> None"
  by (induction key) (auto simp: close_not_terminator split: option.splits)

text \<open>
  What a match is: the matched text is the key in brackets, the key has no line
  terminator, and the matched text stands at the index of the match.
\<close>

lemma matchArbitrary_shape:
  "matchArbitrary name = Some (i, matched, key) \<Longrightarrow>
     matched = CHR ''['' # key @ '']'' \<and>
     (\<forall>c \<in> set key. \<not> isLineTerminator c) \<and>
     take (length matched) (drop i name) = matched \<and>
     i + length matched \<le> length name"
proof (induction name arbitrary: i)
  case Nil
  then show ?case by simp
next
  case (Cons c cs)
  show ?case
  proof (cases "if c = CHR ''['' then lastClose cs else None")
    case (Some k)
    then have c: "c = CHR ''[''" and k: "lastClose cs = Some k"
      by (auto split: if_splits)
    from Cons.prems Some have r: "i = 0" "matched = c # take (Suc k) cs" "key = take k cs"
      by auto
    from lastClose_Some [OF k]
    have len: "k < length cs" and lt: "\<forall>c \<in> set (take (Suc k) cs). \<not> isLineTerminator c"
      by auto
    have "set (take k cs) \<subseteq> set (take (Suc k) cs)"
      by (simp add: set_take_subset_set_take)
    with lt have "\<forall>c \<in> set key. \<not> isLineTerminator c"
      using r(3) by blast
    moreover have "matched = CHR ''['' # key @ '']''"
      using r c lastClose_take [OF k] by simp
    moreover have "length matched = Suc (Suc k)"
      using r len by simp
    moreover have "take (Suc (Suc k)) (c # cs) = matched"
      using r by simp
    ultimately show ?thesis
      using r(1) len by simp
  next
    case None
    with Cons.prems obtain j where j: "matchArbitrary cs = Some (j, matched, key)" and i: "i = Suc j"
      by auto
    from Cons.IH [OF j] i show ?thesis
      by auto
  qed
qed

text \<open>
  The first occurrence of the matched text in the name is the match itself: an
  earlier occurrence would have been an earlier match.
\<close>

lemma indexOf_matched:
  "matchArbitrary name = Some (i, matched, key) \<Longrightarrow> indexOf name matched = Some i"
proof (induction name arbitrary: i)
  case Nil
  then show ?case by simp
next
  case (Cons c cs)
  from matchArbitrary_shape [OF Cons.prems]
  have m: "matched = CHR ''['' # key @ '']''" and lt: "\<forall>c \<in> set key. \<not> isLineTerminator c"
    and occ: "take (length matched) (drop i (c # cs)) = matched"
    by auto
  show ?case
  proof (cases "if c = CHR ''['' then lastClose cs else None")
    case (Some k)
    with Cons.prems have i: "i = 0"
      by auto
    with occ show ?thesis
      by simp
  next
    case None
    with Cons.prems obtain j where j: "matchArbitrary cs = Some (j, matched, key)" and i: "i = Suc j"
      by auto
    have "take (length matched) (c # cs) \<noteq> matched"
    proof
      assume eq: "take (length matched) (c # cs) = matched"
      with m have c: "c = CHR ''[''" and t: "take (length key + 1) cs = key @ '']''"
        by auto
      have "take (length key + 1) cs @ drop (length key + 1) cs = cs"
        by (rule append_take_drop_id)
      then have e: "(key @ '']'') @ drop (length key + 1) cs = cs"
        by (simp only: t)
      have "lastClose ((key @ '']'') @ drop (length key + 1) cs) \<noteq> None"
        using lastClose_found [OF lt, of "drop (length key + 1) cs"] by simp
      then have "lastClose cs \<noteq> None"
        unfolding e .
      with None c show False
        by (auto split: if_splits)
    qed
    with Cons.IH [OF j] i show ?thesis
      by simp
  qed
qed

lemma getSubstitution_plain:
  "CHR ''$'' \<notin> set replacement \<Longrightarrow> getSubstitution matched front rear replacement = replacement"
  by (induction matched front rear replacement rule: getSubstitution.induct) auto

lemma replace_bracket:
  assumes "matchArbitrary name = Some (i, matched, key)"
  shows "replace name matched replacement =
           take i name @
           getSubstitution matched (take i name) (drop (i + length matched) name) replacement @
           drop (i + length matched) name"
  using indexOf_matched [OF assms] by (simp add: replace_def Let_def)

text \<open>
  The replacement text of a violation, when the first path holds no dollar sign: the
  name with the bracketed part replaced by that path, or by the path without its last
  eight characters when it ends with \<^verbatim>\<open>-DEFAULT\<close>.
\<close>

lemma fixed_text_without_dollar:
  assumes "checkClass ctx start (idx, cls, off) = Some v"
  shows "\<exists>i matched first others.
           matchArbitrary (parseClassname ctx cls idx) = Some (i, matched, arbitraryValue v) \<and>
           map_get (themeIndex ctx) (JString (arbitraryValue v)) = Some (first, others) \<and>
           definedToken v = first # others \<and>
           (CHR ''$'' \<notin> set first \<longrightarrow>
              fixed v = take i (parseClassname ctx cls idx) @
                        (if endsWith first ''-DEFAULT'' then take (length first - 8) first else first) @
                        drop (i + length matched) (parseClassname ctx cls idx))"
proof -
  let ?name = "parseClassname ctx cls idx"
  from assms obtain i matched key first others
    where m: "matchArbitrary ?name = Some (i, matched, key)"
      and g: "map_get (themeIndex ctx) (JString key) = Some (first, others)"
      and v: "v = \<lparr> arbitraryValue = key, definedToken = first # others,
                    fixStart = toNumber start + int off,
                    fixEnd = toNumber start + int off + int (length ?name),
                    fixed = replace ?name matched
                              (if endsWith first ''-DEFAULT''
                               then take (length first - 8) first else first) \<rparr>"
    by (auto simp: checkClass_def Let_def split: option.splits prod.splits)
  have "CHR ''$'' \<notin> set (if endsWith first ''-DEFAULT'' then take (length first - 8) first else first)"
    if "CHR ''$'' \<notin> set first"
    using that by (auto dest: in_set_takeD)
  then have "CHR ''$'' \<notin> set first \<longrightarrow>
      fixed v = take i ?name @
                (if endsWith first ''-DEFAULT'' then take (length first - 8) first else first) @
                drop (i + length matched) ?name"
    using replace_bracket [OF m] v by (simp add: getSubstitution_plain)
  with m g v show ?thesis
    by auto
qed

lemma map_filter_eq:
  "List.map_filter f xs = map (\<lambda>x. the (f x)) (filter (\<lambda>x. f x \<noteq> None) xs)"
  by (simp add: List.map_filter_def comp_def)

lemma checkClass_range:
  assumes "checkClass ctx start (idx, cls, off) = Some v"
  shows "fixStart v = toNumber start + int off"
    and "fixEnd v = toNumber start + int off + int (length (parseClassname ctx cls idx))"
  using assms
  by (auto simp: checkClass_def Let_def split: option.splits prod.splits)

lemma map_get_firstOnly:
  "map_get (firstOnly m) k = map_option (\<lambda>(first, others). (first, [])) (map_get m k)"
  by (induction m) (auto simp: firstOnly_def map_get_def)

lemma checkClass_firstOnly:
  "map_option fixed (checkClass (ctx\<lparr>themeIndex := firstOnly (themeIndex ctx)\<rparr>) start t) =
   map_option fixed (checkClass ctx start t)"
  by (auto simp: checkClass_def Let_def map_get_firstOnly split: option.splits prod.splits)

lemma map_filter_map_option:
  "(\<And>x. map_option g (f x) = map_option g (f' x)) \<Longrightarrow>
     map g (List.map_filter f xs) = map g (List.map_filter f' xs)"
proof (induction xs)
  case Nil
  show ?case by (simp add: map_filter_simps)
next
  case (Cons x xs)
  from Cons.prems [of x] Cons.IH [OF Cons.prems] show ?case
    by (cases "f x"; cases "f' x") (auto simp: map_filter_simps)
qed

lemma forbidden_empty_index: "themeIndex ctx = [] \<Longrightarrow> forbidden ctx start classNames = []"
proof -
  assume e: "themeIndex ctx = []"
  have "checkClass ctx start t = None" for t
    using e by (auto simp: checkClass_def Let_def map_get_def split: option.splits prod.splits)
  then show ?thesis
    by (simp add: forbidden_def List.map_filter_def)
qed

lemma walker_empty_index:
  "themeIndex ctx = [] \<Longrightarrow> parseForArbitraryValues ctx node arg = []"
  by (induction ctx node arg rule: parseForArbitraryValues.induct)
     (auto simp: reportClassnames_def forbidden_empty_index Let_def)


section \<open>Facts about splitWithIndex\<close>

lemma find_member: "List.find P xs = Some x \<Longrightarrow> x \<in> set xs \<and> P x"
  by (induction xs) (auto split: if_splits)

lemma regexExec_plain:
  assumes "regexExec (plainRegexp st m) str k = Some (i, mt, caps)"
  shows "k \<le> i \<and> i + length mt \<le> length str \<and> caps = []"
  using assms
  by (auto simp: regexExec_def execAt_def plainRegexp_def
           split: if_splits option.splits dest!: find_member)

lemma ordered_mono: "ordered str k ms \<Longrightarrow> k' \<le> k \<Longrightarrow> ordered str k' ms"
  by (cases ms) auto

lemma matchAll_ordered: "ordered str k (matchAll (plainRegexp st m) str k)"
proof (induction "plainRegexp st m" str k rule: matchAll.induct)
  case (1 str k)
  show ?case
  proof (cases "regexExec (plainRegexp st m) str k")
    case None
    then show ?thesis
      by (simp add: matchAll.simps)
  next
    case (Some found)
    obtain i mt caps where f: "found = (i, mt, caps)"
      by (cases found)
    from Some f have b: "k \<le> i \<and> i + length mt \<le> length str \<and> caps = []"
      using regexExec_plain by simp
    have "ordered str (if mt = [] then Suc i else i + length mt)
            (matchAll (plainRegexp st m) str (if mt = [] then Suc i else i + length mt))"
      using 1 Some f by simp
    then have "ordered str (i + length mt)
            (matchAll (plainRegexp st m) str (if mt = [] then Suc i else i + length mt))"
      by (rule ordered_mono) simp
    with Some f b show ?thesis
      by (simp add: matchAll.simps)
  qed
qed

lemma substring_between:
  "a \<le> b \<Longrightarrow> b \<le> length str \<Longrightarrow>
     substring str a (a + length (substring str a b)) = substring str a b"
  by (simp add: substring_def min_def max_def)

text \<open>
  The loop appends parts that are placed, that start at or after \<^verbatim>\<open>lastIndex\<close> and
  before the final \<^verbatim>\<open>lastIndex\<close>, with strictly increasing indices.
\<close>

lemma splitLoop_parts:
  assumes "ordered str k ms" and "k \<le> length str"
  shows "\<exists>new k'. splitLoop str ms k res = (res @ new, k') \<and> k \<le> k' \<and> k' \<le> length str \<and>
           (\<forall>p \<in> set new. placed str p \<and> k \<le> snd p \<and> snd p < k') \<and>
           sorted_wrt (<) (map snd new)"
  using assms
proof (induction ms arbitrary: k res)
  case Nil
  then show ?case by simp
next
  case (Cons mm ms)
  obtain i mt caps where mm: "mm = (i, mt, caps)"
    by (cases mm)
  from Cons.prems mm have b: "k \<le> i" "i + length mt \<le> length str" "caps = []"
    and rest: "ordered str (i + length mt) ms"
    by auto
  define pushed where "pushed = (if i \<noteq> k then [(Some (substring str k i), k)] else [])"
  from Cons.IH [OF rest b(2), of "res @ pushed"]
  obtain new k' where l: "splitLoop str ms (i + length mt) (res @ pushed) = ((res @ pushed) @ new, k')"
    and k': "i + length mt \<le> k'" "k' \<le> length str"
    and new: "\<forall>p \<in> set new. placed str p \<and> i + length mt \<le> snd p \<and> snd p < k'"
    and sorted: "sorted_wrt (<) (map snd new)"
    by blast
  have loop: "splitLoop str (mm # ms) k res = (res @ (pushed @ new), k')"
    using l mm b(3) by (cases "i = k") (simp_all add: pushed_def)
  have pushed: "\<forall>p \<in> set pushed. placed str p \<and> snd p = k \<and> k < i"
    using b by (auto simp: pushed_def placed_def substring_between)
  have "\<forall>p \<in> set (pushed @ new). placed str p \<and> k \<le> snd p \<and> snd p < k'"
    using pushed new b k' by fastforce
  moreover have "sorted_wrt (<) (map snd pushed)"
    by (simp add: pushed_def)
  then have "sorted_wrt (<) (map snd (pushed @ new))"
    using pushed new sorted b by (fastforce simp: sorted_wrt_append)
  moreover have "k \<le> k'"
    using b k' by simp
  ultimately show ?case
    using loop k'(2) by blast
qed

lemma placed_rest: "k \<le> length str \<Longrightarrow> placed str (Some (drop k str), k)"
  by (simp add: placed_def substring_def min_def max_def)

lemma placed_whole: "placed str (Some str, 0)"
  by (simp add: placed_def substring_def)

lemma placed_empty: "placed str (Some [], 0)"
  by (simp add: placed_def substring_def)

lemma sorted_from_strict: "sorted_wrt (<) (xs :: nat list) \<Longrightarrow> sorted xs"
  by (rule sorted_wrt_mono_rel [where P = "(<)"]) auto

text \<open>The result of the split, by the first match.\<close>

lemma splitWithIndex_shape:
  "matchAll (plainRegexp st m) str 0 = [] \<and> splitWithIndex str (plainRegexp st m) = [(Some str, 0)] \<or>
   (\<exists>i mt ms new k'. matchAll (plainRegexp st m) str 0 = (i, mt, []) # ms \<and>
      splitWithIndex str (plainRegexp st m) =
        (if i = 0 then [(Some [], 0)] else []) @ new @ [(Some (drop k' str), k')] \<and>
      k' \<le> length str \<and>
      (\<forall>p \<in> set new. placed str p \<and> snd p < k' \<and> (i = 0 \<and> mt \<noteq> [] \<longrightarrow> 0 < snd p)) \<and>
      (i = 0 \<and> mt \<noteq> [] \<longrightarrow> 0 < k') \<and>
      sorted_wrt (<) (map snd new))"
proof (cases "matchAll (plainRegexp st m) str 0")
  case Nil
  then show ?thesis
    by (simp add: splitWithIndex_def)
next
  case (Cons mm ms)
  obtain i mt caps where mm: "mm = (i, mt, caps)"
    by (cases mm)
  have ord: "ordered str 0 (mm # ms)"
    using matchAll_ordered [of str 0 st m] Cons by simp
  then have caps: "caps = []" and b: "i + length mt \<le> length str"
    and rest: "ordered str (i + length mt) ms"
    using mm by auto
  define res0 :: "part list" where "res0 = (if i = 0 then [(Some [], 0)] else [])"
  show ?thesis
  proof (cases "i = 0")
    case True
    from splitLoop_parts [OF rest b, of res0]
    obtain new k' where l: "splitLoop str ms (i + length mt) res0 = (res0 @ new, k')"
      and k: "i + length mt \<le> k'" "k' \<le> length str"
      and new: "\<forall>p \<in> set new. placed str p \<and> i + length mt \<le> snd p \<and> snd p < k'"
      and sorted: "sorted_wrt (<) (map snd new)"
      by blast
    have "splitLoop str (mm # ms) 0 res0 = (res0 @ new, k')"
      using l mm caps True by simp
    then have "splitWithIndex str (plainRegexp st m) = res0 @ new @ [(Some (drop k' str), k')]"
      using Cons mm by (simp add: splitWithIndex_def res0_def)
    moreover have "\<forall>p \<in> set new. placed str p \<and> snd p < k' \<and> (i = 0 \<and> mt \<noteq> [] \<longrightarrow> 0 < snd p)"
      using new by (cases mt) fastforce+
    moreover have "i = 0 \<and> mt \<noteq> [] \<longrightarrow> 0 < k'"
      using k by (cases mt) auto
    ultimately show ?thesis
      using Cons mm caps k(2) sorted by (auto simp: res0_def)
  next
    case False
    from splitLoop_parts [OF ord, of res0]
    obtain new k' where l: "splitLoop str (mm # ms) 0 res0 = (res0 @ new, k')"
      and k: "k' \<le> length str"
      and new: "\<forall>p \<in> set new. placed str p \<and> 0 \<le> snd p \<and> snd p < k'"
      and sorted: "sorted_wrt (<) (map snd new)"
      by auto
    then have "splitWithIndex str (plainRegexp st m) = res0 @ new @ [(Some (drop k' str), k')]"
      using Cons mm by (simp add: splitWithIndex_def res0_def)
    then show ?thesis
      using Cons mm caps k new sorted False by (auto simp: res0_def)
  qed
qed

lemma matchesNowhere_no_match: "matchesNowhere r str \<Longrightarrow> matchAll r str 0 = []"
proof -
  assume n: "matchesNowhere r str"
  then have all: "\<forall>i \<in> set [0..<Suc (length str)]. execAt r str i = None"
    by (simp add: matchesNowhere_def list_all_iff)
  have "0 \<in> set [0..<Suc (length str)]"
    by simp
  with all have "execAt r str 0 = None"
    by (auto simp del: upt_Suc set_upt)
  moreover have "List.find (\<lambda>i. execAt r str i \<noteq> None) [0..<Suc (length str)] = None"
    unfolding find_None_iff using all by (auto simp del: upt_Suc set_upt)
  ultimately have "regexExec r str 0 = None"
    by (simp add: regexExec_def)
  then show ?thesis
    by (simp add: matchAll.simps)
qed

lemma matchAll_after_empty:
  "matchAll r str 0 = (0, [], caps) # ms \<Longrightarrow> ms = matchAll r str (Suc 0)"
  by (subst (asm) matchAll.simps) (auto split: option.splits if_splits)

text \<open>After an empty first match at index 0 the first two parts both have index 0.\<close>

lemma split_after_empty_start:
  assumes "emptyMatchAtStart (plainRegexp st m) str"
  shows "\<exists>v rest. splitWithIndex str (plainRegexp st m) = (Some [], 0) # (v, 0) # rest"
proof -
  let ?r = "plainRegexp st m"
  from assms obtain caps ms where ma0: "matchAll ?r str 0 = (0, [], caps) # ms"
    by (auto simp: emptyMatchAtStart_def split: list.splits)
  with matchAll_ordered [of str 0 st m] have "caps = []"
    by simp
  with ma0 have ma: "matchAll ?r str 0 = (0, [], []) # ms"
    by simp
  then have ms: "ms = matchAll ?r str (Suc 0)"
    by (rule matchAll_after_empty)
  have ord: "ordered str (Suc 0) ms"
    unfolding ms by (rule matchAll_ordered)
  show ?thesis
  proof (cases ms)
    case Nil
    with ma show ?thesis
      by (simp add: splitWithIndex_def)
  next
    case (Cons mm ms')
    obtain i mt cs where mm: "mm = (i, mt, cs)"
      by (cases mm)
    from ord Cons mm have i: "Suc 0 \<le> i" "i + length mt \<le> length str" "cs = []"
      and rest: "ordered str (i + length mt) ms'"
      by auto
    from splitLoop_parts [OF rest i(2), of "[(Some [], 0), (Some (substring str 0 i), 0)]"]
    obtain new k' where
      "splitLoop str ms' (i + length mt) [(Some [], 0), (Some (substring str 0 i), 0)] =
         ([(Some [], 0), (Some (substring str 0 i), 0)] @ new, k')"
      by blast
    with ma Cons mm i show ?thesis
      by (simp add: splitWithIndex_def)
  qed
qed


section \<open>The claims\<close>

text \<open>
  Claim C1. For the attribute
  \<^verbatim>\<open><div class="flex bg-[#f0f2f5] text-[#123456] text-[#332233] bg-[#F0F2F5]">\<close> and the
  theme colours of the test, the claim expects four violations and the class names
  rewritten to \<^verbatim>\<open>flex bg-gray-layout text-flow text-gray bg-gray-layout\<close>, the
  upper-case payload included. The lookup \<^verbatim>\<open>map.get(key)\<close> compares strings exactly:
  with a parser whose name is the class name, the rule reports three violations, the
  class name \<^verbatim>\<open>bg-[#F0F2F5]\<close> is not reported and the fixes leave it in place.
\<close>

theorem uppercase_payload_is_not_reported:
  "buildIndex testConfig = Inr testIndex \<and>
   sourceText testSource (fst (nodeRange testNode)) (snd (nodeRange testNode)) =
     [CHR 0x22] @ ''flex bg-[#f0f2f5] text-[#123456] text-[#332233] bg-[#F0F2F5]'' @ [CHR 0x22] \<and>
   parseForArbitraryValues testEnv testNode None =
     [\<lparr>arbitraryValue = ''#f0f2f5'', definedToken = [''gray-layout'', ''gray-flow''],
        fixStart = 17, fixEnd = 29, fixed = ''bg-gray-layout''\<rparr>,
      \<lparr>arbitraryValue = ''#123456'', definedToken = [''flow''],
        fixStart = 30, fixEnd = 44, fixed = ''text-flow''\<rparr>,
      \<lparr>arbitraryValue = ''#332233'', definedToken = [''gray-DEFAULT''],
        fixStart = 45, fixEnd = 59, fixed = ''text-gray''\<rparr>] \<and>
   applyFixes testSource (parseForArbitraryValues testEnv testNode None) =
     ''<div class='' @ [CHR 0x22] @
     ''flex bg-gray-layout text-flow text-gray bg-[#F0F2F5]'' @ [CHR 0x22] @
     ''>Arbitrary width!</div>''"
  by code_simp

text \<open>
  Claim C2. The replacement text of a violation is the name with the bracketed part
  replaced by the first path for the payload, without the suffix \<^verbatim>\<open>-DEFAULT\<close> when
  the path ends with it. The rule passes the path to \<^verbatim>\<open>replace\<close> as the replacement,
  where a dollar sign starts a pattern: for a colour \<^verbatim>\<open>#123456\<close> at the key
  \<^verbatim>\<open>a$$b\<close> the first path is \<^verbatim>\<open>a$$b\<close>, and the class name
  \<^verbatim>\<open>text-[#123456]\<close> is rewritten to \<^verbatim>\<open>text-a$b\<close>, not to
  \<^verbatim>\<open>text-a$$b\<close>. The two examples of the claim hold: with the theme of the test,
  \<^verbatim>\<open>text-[#332233]\<close> becomes \<^verbatim>\<open>text-gray\<close> and \<^verbatim>\<open>bg-[#f0f2f5]\<close> becomes
  \<^verbatim>\<open>bg-gray-layout\<close>. (Lemma \<open>fixed_text_without_dollar\<close> is the claim for paths
  without a dollar sign.)
\<close>

theorem dollar_in_path_is_expanded:
  "buildIndex dollarConfig = Inr (themeIndex dollarEnv) \<and>
   pathsOf (themeIndex dollarEnv) (JString ''#123456'') = [''a$$b''] \<and>
   map fixed (reportClassnames dollarEnv (JString ''text-[#123456]'') (Some 0)) = [''text-a$b''] \<and>
   map fixed (reportClassnames testEnv (JString ''text-[#332233] bg-[#f0f2f5]'') (Some 0)) =
     [''text-gray'', ''bg-gray-layout'']"
  by code_simp

text \<open>
  Claim C3. The fix range of every violation is the start of the leaf plus the
  relative start of the class name, up to that plus the length of the parsed name; for
  the attribute \<^verbatim>\<open>class="flex bg-[#f0f2f5] text-[#123456]"\<close> the two ranges are
  exactly the texts \<^verbatim>\<open>bg-[#f0f2f5]\<close> and \<^verbatim>\<open>text-[#123456]\<close>.
\<close>

theorem fix_range_is_the_span_of_the_name:
  "map (\<lambda>v. (fixStart v, fixEnd v)) (forbidden ctx start classNames) =
   map (\<lambda>(idx, cls, off).
          (toNumber start + int off,
           toNumber start + int off + int (length (parseClassname ctx cls idx))))
     (filter (\<lambda>t. checkClass ctx start t \<noteq> None) (enumerate 0 classNames)) \<and>
   sourceText attrSource (fst (nodeRange attrNode)) (snd (nodeRange attrNode)) =
     [CHR 0x22] @ ''flex bg-[#f0f2f5] text-[#123456]'' @ [CHR 0x22] \<and>
   map (\<lambda>v. sourceText attrSource (fixStart v) (fixEnd v))
     (parseForArbitraryValues testEnv attrNode None) = [''bg-[#f0f2f5]'', ''text-[#123456]'']"
proof (intro conjI)
  show "sourceText attrSource (fst (nodeRange attrNode)) (snd (nodeRange attrNode)) =
          [CHR 0x22] @ ''flex bg-[#f0f2f5] text-[#123456]'' @ [CHR 0x22]"
    by code_simp
  show "map (\<lambda>v. (fixStart v, fixEnd v)) (forbidden ctx start classNames) =
        map (\<lambda>(idx, cls, off).
               (toNumber start + int off,
                toNumber start + int off + int (length (parseClassname ctx cls idx))))
          (filter (\<lambda>t. checkClass ctx start t \<noteq> None) (enumerate 0 classNames))"
    unfolding forbidden_def map_filter_eq map_map
    by (rule map_cong) (auto simp: checkClass_range)
  show "map (\<lambda>v. sourceText attrSource (fixStart v) (fixEnd v))
          (parseForArbitraryValues testEnv attrNode None) = [''bg-[#f0f2f5]'', ''text-[#123456]'']"
    by code_simp
qed

text \<open>
  Claim C4. Building the index is a depth-first traversal that descends only into
  plain mappings and takes every other value, arrays and \<^verbatim>\<open>null\<close> included, as a
  leaf; the entry of a value holds the dash-joined paths of all the leaves with that
  value, in the order of discovery; and the replacement text uses the first path only
  (it is the same in an index that keeps nothing but the first path of each entry).
\<close>

theorem index_is_depth_first_with_all_paths:
  "traverseObject (JObject kvs) callback path s =
     Inr (fold (\<lambda>(v, p). callback v p) (themeLeaves path kvs) s) \<and>
   traverseObject (JObject [(key, JArray r xs)]) callback path s =
     Inr (callback (JArray r xs) (path @ [key]) s) \<and>
   traverseObject (JObject [(key, JNull)]) callback path s =
     Inr (callback JNull (path @ [key]) s) \<and>
   (\<exists>m. buildIndex (themeConfig (JObject kvs)) = Inr m \<and>
        (\<forall>v. pathsOf m v =
               map (\<lambda>(v, p). join p ''-'') (filter (\<lambda>(v', p). v' = v) (themeLeaves [] kvs)))) \<and>
   map fixed (forbidden (ctx\<lparr>themeIndex := firstOnly (themeIndex ctx)\<rparr>) start classNames) =
     map fixed (forbidden ctx start classNames)"
proof (intro conjI)
  show "traverseObject (JObject kvs) callback path s =
          Inr (fold (\<lambda>(v, p). callback v p) (themeLeaves path kvs) s)"
    by (simp add: traverse_leaves)
  show "traverseObject (JObject [(key, JArray r xs)]) callback path s =
          Inr (callback (JArray r xs) (path @ [key]) s)"
    by simp
  show "traverseObject (JObject [(key, JNull)]) callback path s =
          Inr (callback JNull (path @ [key]) s)"
    by simp
  show "\<exists>m. buildIndex (themeConfig (JObject kvs)) = Inr m \<and>
          (\<forall>v. pathsOf m v =
                 map (\<lambda>(v, p). join p ''-'') (filter (\<lambda>(v', p). v' = v) (themeLeaves [] kvs)))"
    by (simp add: buildIndex_eq themeConfig_def traverse_leaves pathsOf_fold)
       (simp add: pathsOf_def map_get_def)
  show "map fixed (forbidden (ctx\<lparr>themeIndex := firstOnly (themeIndex ctx)\<rparr>) start classNames) =
          map fixed (forbidden ctx start classNames)"
    unfolding forbidden_def by (rule map_filter_map_option) (rule checkClass_firstOnly)
qed

text \<open>
  Claim C5. For a node whose type is none of the cases of the switch, the walker
  emits no leaf and raises no error: the node is skipped and nothing is reported; as
  an element of an array it changes nothing in what the array yields.
\<close>

theorem unsupported_node_is_skipped:
  "parseForArbitraryValues ctx node (Some (OtherNode ty)) = [] \<and>
   parseForArbitraryValues ctx node (Some (ArrayExpression (els @ Some (OtherNode ty) # els'))) =
     parseForArbitraryValues ctx node (Some (ArrayExpression (els @ els')))"
proof -
  have "extractClassnamesFromValue JNull = []"
    by simp
  then have "reportClassnames ctx JNull None = []"
    by (simp add: reportClassnames_def forbidden_def map_filter_simps)
  then have skipped: "parseForArbitraryValues ctx node (Some (OtherNode ty)) = []"
    by simp
  then have "parseForArbitraryValues ctx node (Some (ArrayExpression (els @ Some (OtherNode ty) # els'))) =
             parseForArbitraryValues ctx node (Some (ArrayExpression (els @ els')))"
    by simp
  with skipped show ?thesis
    by (rule conjI)
qed

text \<open>
  Claim C6, as amended. For every resolved configuration: when its \<^verbatim>\<open>theme.colors\<close>
  is an empty mapping, the index is empty, and with an empty index the walker reports
  nothing, whatever it is given; when the configuration has no theme (the property
  reads as \<^verbatim>\<open>undefined\<close> or \<^verbatim>\<open>null\<close>), or its theme has no colours (they read
  as \<^verbatim>\<open>undefined\<close> or \<^verbatim>\<open>null\<close>), building the index throws a type error, and so it
  does when the configuration itself is \<^verbatim>\<open>undefined\<close> or \<^verbatim>\<open>null\<close>.
\<close>

theorem empty_colors_report_nothing_and_missing_theme_throws:
  "(getProp cfg ''theme'' = Inr theme \<and> getProp theme ''colors'' = Inr (JObject []) \<longrightarrow>
      buildIndex cfg = Inr []) \<and>
   (themeIndex ctx = [] \<longrightarrow> parseForArbitraryValues ctx node arg = []) \<and>
   (getProp cfg ''theme'' = Inr JUndefined \<or> getProp cfg ''theme'' = Inr JNull \<longrightarrow>
      buildIndex cfg = Inl TypeError) \<and>
   (getProp cfg ''theme'' = Inr theme \<and>
      (getProp theme ''colors'' = Inr JUndefined \<or> getProp theme ''colors'' = Inr JNull) \<longrightarrow>
      buildIndex cfg = Inl TypeError) \<and>
   (cfg = JUndefined \<or> cfg = JNull \<longrightarrow> buildIndex cfg = Inl TypeError)"
proof (intro conjI impI)
  assume "getProp cfg ''theme'' = Inr theme \<and> getProp theme ''colors'' = Inr (JObject [])"
  then show "buildIndex cfg = Inr []"
    by (simp add: buildIndex_eq)
next
  assume "themeIndex ctx = []"
  then show "parseForArbitraryValues ctx node arg = []"
    by (rule walker_empty_index)
next
  assume "getProp cfg ''theme'' = Inr JUndefined \<or> getProp cfg ''theme'' = Inr JNull"
  then show "buildIndex cfg = Inl TypeError"
    by (auto simp: buildIndex_eq)
next
  assume "getProp cfg ''theme'' = Inr theme \<and>
            (getProp theme ''colors'' = Inr JUndefined \<or> getProp theme ''colors'' = Inr JNull)"
  then show "buildIndex cfg = Inl TypeError"
    by (auto simp: buildIndex_eq)
next
  assume "cfg = JUndefined \<or> cfg = JNull"
  then show "buildIndex cfg = Inl TypeError"
    by (auto simp: buildIndex_eq)
qed

theorem empty_colors_report_nothing_and_missing_theme_throws_witness:
  "getProp (fullConfig (JObject [])) ''theme'' = Inr (fullTheme (JObject [])) \<and>
   getProp (fullTheme (JObject [])) ''colors'' = Inr (JObject []) \<and>
   buildIndex (fullConfig (JObject [])) = Inr [] \<and>
   themeIndex \<lparr> themeIndex = [], parseClassname = sameName \<rparr> = [] \<and>
   parseForArbitraryValues \<lparr> themeIndex = [], parseClassname = sameName \<rparr> testNode None = [] \<and>
   getProp (JObject [(''plugins'', JArray 0 [])]) ''theme'' = Inr JUndefined \<and>
   buildIndex (JObject [(''plugins'', JArray 0 [])]) = Inl TypeError \<and>
   getProp (fullConfig JNull) ''theme'' = Inr (fullTheme JNull) \<and>
   getProp (fullTheme JNull) ''colors'' = Inr JNull \<and>
   buildIndex (fullConfig JNull) = Inl TypeError \<and>
   buildIndex JUndefined = Inl TypeError"
proof -
  have a: "getProp (fullConfig (JObject [])) ''theme'' = Inr (fullTheme (JObject []))"
    and b: "getProp (fullTheme (JObject [])) ''colors'' = Inr (JObject [])"
    and c: "themeIndex \<lparr> themeIndex = [], parseClassname = sameName \<rparr> = []"
    and d: "getProp (JObject [(''plugins'', JArray 0 [])]) ''theme'' = Inr JUndefined"
    and e: "getProp (fullConfig JNull) ''theme'' = Inr (fullTheme JNull)"
    and f: "getProp (fullTheme JNull) ''colors'' = Inr JNull"
    by (simp_all add: fullConfig_def fullTheme_def)
  from a b c d e f
    empty_colors_report_nothing_and_missing_theme_throws
      [of "fullConfig (JObject [])" "fullTheme (JObject [])"
          "\<lparr> themeIndex = [], parseClassname = sameName \<rparr>" testNode None]
    empty_colors_report_nothing_and_missing_theme_throws
      [of "JObject [(''plugins'', JArray 0 [])]"]
    empty_colors_report_nothing_and_missing_theme_throws
      [of "fullConfig JNull" "fullTheme JNull"]
    empty_colors_report_nothing_and_missing_theme_throws [of JUndefined]
  show ?thesis
    by blast
qed

text \<open>
  The claim as stated fails: for a resolved configuration whose theme is empty, or
  one without a theme, building the index throws, so there is no empty index; the
  same holds for a configuration with all its other keys whose colours are
  \<^verbatim>\<open>null\<close>.
\<close>

theorem empty_theme_gives_no_index:
  "buildIndex (JObject [(''theme'', JObject [])]) = Inl TypeError \<and>
   buildIndex (JObject [(''theme'', JObject [])]) \<noteq> Inr [] \<and>
   buildIndex (JObject [(''content'', JArray 1 []), (''plugins'', JArray 0 [])]) = Inl TypeError \<and>
   buildIndex (fullConfig JNull) = Inl TypeError"
  by (simp add: buildIndex_eq fullConfig_def)

text \<open>
  Claim C7. For a conditional expression the walker goes into the true branch and
  then into the false branch, and never into the condition: with the branches
  \<^verbatim>\<open>"a-[1px]"\<close> and \<^verbatim>\<open>"b-[2px]"\<close> both are checked, and a condition that is itself
  a string with an arbitrary value adds nothing.
\<close>

theorem conditional_visits_both_branches:
  "parseForArbitraryValues ctx node (Some (ConditionalExpression test consequent alternate)) =
     parseForArbitraryValues ctx node (Some consequent) @
     parseForArbitraryValues ctx node (Some alternate) \<and>
   map arbitraryValue (parseForArbitraryValues pxEnv callNode
      (Some (ConditionalExpression (Literal (JString ''c-[1px]'') 4 13)
               (Literal (JString ''a-[1px]'') 16 25) (Literal (JString ''b-[2px]'') 28 37))))
     = [''1px'', ''2px'']"
proof
  show "parseForArbitraryValues ctx node (Some (ConditionalExpression test consequent alternate)) =
          parseForArbitraryValues ctx node (Some consequent) @
          parseForArbitraryValues ctx node (Some alternate)"
    by simp
  show "map arbitraryValue (parseForArbitraryValues pxEnv callNode
          (Some (ConditionalExpression (Literal (JString ''c-[1px]'') 4 13)
                   (Literal (JString ''a-[1px]'') 16 25) (Literal (JString ''b-[2px]'') 28 37))))
        = [''1px'', ''2px'']"
    by code_simp
qed

text \<open>
  Claim C8. For a logical expression the walker goes into the right operand only; the
  left operand produces no leaf and no violation.
\<close>

theorem logical_visits_right_operand_only:
  "parseForArbitraryValues ctx node (Some (LogicalExpression left right)) =
     parseForArbitraryValues ctx node (Some right) \<and>
   map arbitraryValue (parseForArbitraryValues pxEnv callNode
      (Some (LogicalExpression (Literal (JString ''a-[1px]'') 4 13)
               (Literal (JString ''b-[2px]'') 17 26))))
     = [''2px'']"
proof
  show "parseForArbitraryValues ctx node (Some (LogicalExpression left right)) =
          parseForArbitraryValues ctx node (Some right)"
    by simp
  show "map arbitraryValue (parseForArbitraryValues pxEnv callNode
          (Some (LogicalExpression (Literal (JString ''a-[1px]'') 4 13)
                   (Literal (JString ''b-[2px]'') 17 26))))
        = [''2px'']"
    by code_simp
qed

text \<open>
  Claim C9. Building the index has no hidden state: when a session has built its index
  from a configuration, any later session on the same configuration, whatever maps
  the store holds by then, succeeds as well, allocates a map of its own, that map is
  equal to the first one (the same keys, and for each key the same paths in the same
  order), and the maps that existed before are unchanged.
\<close>

theorem index_construction_is_repeatable:
  assumes "create mergedConfig st = Inr (r1, st1)"
  shows "\<exists>r2 st2. create mergedConfig st' = Inr (r2, st2) \<and> r2 = length st' \<and>
           st2 ! r2 = st1 ! r1 \<and> take (length st') st2 = st'"
proof -
  from assms obtain kvs where
    first: "st1 = st @ [fold (\<lambda>(v, p). collect v p) (themeLeaves [] kvs) []]" "r1 = length st"
    and again: "create mergedConfig st' =
                  Inr (length st', st' @ [fold (\<lambda>(v, p). collect v p) (themeLeaves [] kvs) []])"
    by (auto simp: create_eq split: sum.splits)
  from first have "st1 ! r1 = fold (\<lambda>(v, p). collect v p) (themeLeaves [] kvs) []"
    by simp
  with again show ?thesis
    by simp
qed

theorem index_construction_is_repeatable_witness:
  "create testConfig [] = Inr (0, [testIndex]) \<and>
   (\<exists>r2 st2. create testConfig [testIndex] = Inr (r2, st2) \<and> r2 = 1 \<and>
        st2 ! r2 = testIndex \<and> take 1 st2 = [testIndex])"
proof -
  have h: "create testConfig [] = Inr (0, [testIndex])"
    by code_simp
  from index_construction_is_repeatable [OF h, of "[testIndex]"] h show ?thesis
    by simp
qed

text \<open>
  Claim C10, as amended. For a separator without capture groups, every part that
  \<open>splitWithIndex\<close> returns has a value that is the text of the string at its index,
  the indices never decrease, they increase strictly exactly when the first match of
  the separator is not an empty match at index 0, and when the separator matches
  nowhere the result is the single part with the whole string at index 0.
\<close>

theorem splitWithIndex_parts:
  "(\<forall>p \<in> set (splitWithIndex str (plainRegexp st m)). placed str p) \<and>
   sorted (map snd (splitWithIndex str (plainRegexp st m))) \<and>
   sorted_wrt (<) (map snd (splitWithIndex str (plainRegexp st m))) =
     (\<not> emptyMatchAtStart (plainRegexp st m) str) \<and>
   (matchesNowhere (plainRegexp st m) str \<longrightarrow>
      splitWithIndex str (plainRegexp st m) = [(Some str, 0)])"
proof -
  let ?r = "plainRegexp st m"
  have nowhere: "matchesNowhere ?r str \<longrightarrow> splitWithIndex str ?r = [(Some str, 0)]"
    by (auto simp: splitWithIndex_def dest!: matchesNowhere_no_match)
  have repeated: "\<not> sorted_wrt (<) (map snd (splitWithIndex str ?r))"
    if "emptyMatchAtStart ?r str"
    using split_after_empty_start [OF that] by auto
  have "(\<forall>p \<in> set (splitWithIndex str ?r). placed str p) \<and>
        sorted (map snd (splitWithIndex str ?r)) \<and>
        (\<not> emptyMatchAtStart ?r str \<longrightarrow> sorted_wrt (<) (map snd (splitWithIndex str ?r)))"
    using splitWithIndex_shape [of st m str]
  proof (elim disjE exE conjE)
    assume "matchAll ?r str 0 = []" and s: "splitWithIndex str ?r = [(Some str, 0)]"
    then show ?thesis
      by (simp add: placed_whole)
  next
    fix i mt ms new k'
    assume ma: "matchAll ?r str 0 = (i, mt, []) # ms"
      and s: "splitWithIndex str ?r =
                (if i = 0 then [(Some [], 0)] else []) @ new @ [(Some (drop k' str), k')]"
      and k: "k' \<le> length str"
      and new: "\<forall>p \<in> set new. placed str p \<and> snd p < k' \<and> (i = 0 \<and> mt \<noteq> [] \<longrightarrow> 0 < snd p)"
      and pos: "i = 0 \<and> mt \<noteq> [] \<longrightarrow> 0 < k'"
      and sorted: "sorted_wrt (<) (map snd new)"
    have tail: "sorted_wrt (<) (map snd (new @ [(Some (drop k' str), k')]))"
      using new sorted by (auto simp: sorted_wrt_append)
    have placed: "\<forall>p \<in> set (splitWithIndex str ?r). placed str p"
      using s new k by (auto simp: placed_empty placed_rest)
    have weak: "sorted (map snd (splitWithIndex str ?r))"
      using s sorted_from_strict [OF tail] by (cases "i = 0") simp_all
    have strict: "sorted_wrt (<) (map snd (splitWithIndex str ?r))"
      if "\<not> emptyMatchAtStart ?r str"
    proof (cases "i = 0")
      case True
      with that ma have "mt \<noteq> []"
        by (simp add: emptyMatchAtStart_def)
      with True new pos tail s show ?thesis
        by (auto simp: sorted_wrt_append)
    next
      case False
      with tail s show ?thesis
        by simp
    qed
    from placed weak strict show ?thesis
      by blast
  qed
  with nowhere repeated show ?thesis
    by blast
qed

theorem splitWithIndex_parts_witness:
  "(Some ''cd'', 4) \<in> set (splitWithIndex ''ab  cd'' (plainRegexp False whitespaceRun)) \<and>
   placed ''ab  cd'' (Some ''cd'', 4) \<and>
   sorted (map snd (splitWithIndex ''ab  cd'' (plainRegexp False whitespaceRun))) \<and>
   \<not> emptyMatchAtStart (plainRegexp False whitespaceRun) ''ab  cd'' \<and>
   sorted_wrt (<) (map snd (splitWithIndex ''ab  cd'' (plainRegexp False whitespaceRun))) \<and>
   matchesNowhere (plainRegexp False whitespaceRun) ''abc'' \<and>
   splitWithIndex ''abc'' (plainRegexp False whitespaceRun) = [(Some ''abc'', 0)]"
proof -
  have a: "(Some ''cd'', 4) \<in> set (splitWithIndex ''ab  cd'' (plainRegexp False whitespaceRun))"
    by code_simp
  have b: "\<not> emptyMatchAtStart (plainRegexp False whitespaceRun) ''ab  cd''"
    by code_simp
  have c: "matchesNowhere (plainRegexp False whitespaceRun) ''abc''"
    by code_simp
  from a b splitWithIndex_parts [of "''ab  cd''" False whitespaceRun]
    c splitWithIndex_parts [of "''abc''" False whitespaceRun]
  show ?thesis
    by blast
qed

text \<open>
  The claim as stated fails: with the empty pattern as separator, the parts of
  \<^verbatim>\<open>ab\<close> have the indices 0, 0, 1 and 2, which do not increase strictly.
\<close>

theorem splitWithIndex_indices_repeat:
  "map snd (splitWithIndex ''ab'' (plainRegexp False emptyPattern)) = [0, 0, 1, 2] \<and>
   \<not> sorted_wrt (<) (map snd (splitWithIndex ''ab'' (plainRegexp False emptyPattern)))"
  by code_simp

end
